theory Spec2Isabelle
  imports Main "HOL-Library.Word"
begin

section \<open>Host-side task instantiation and invocation (tapa/host/task.h)\<close>

text \<open>
  The header \<^verbatim>\<open>tapa/host/task.h\<close> defines, in namespace \<^verbatim>\<open>tapa::internal\<close>, the argument
  accessors and the \<^verbatim>\<open>invoker\<close>, and, in namespace \<^verbatim>\<open>tapa\<close>, the parent \<^verbatim>\<open>task\<close> with
  its \<^verbatim>\<open>invoke\<close> overloads. The embedding below follows the header function by function.
  What the header does to its surroundings (binding and running a functor, handing it to
  the scheduler, calling the device runtime, forking) is recorded in an event trace, and
  the objects it mutates (sequence counters, the shared int64 cell) live in an explicit
  state that every function takes and returns.
\<close>

subsection \<open>Machine integers\<close>

text \<open>
  A C++ \<^verbatim>\<open>int\<close> is a 32-bit word, compared as two's complement (\<open><s\<close>). The counter of a
  sequence object is incremented by the code, so it is a word and \<open>+ 1\<close> wraps. The loop
  counter of the replicating \<^verbatim>\<open>invoke\<close> stays between 0 and \<^verbatim>\<open>n\<close> and the kernel argument
  index stays below the number of arguments, so neither can overflow: they are \<open>int\<close> and
  \<open>nat\<close>. Nanosecond counts (\<^verbatim>\<open>int64_t\<close>) are only copied by the code, except for one
  difference of two readings of the steady clock; they are \<open>int\<close>.
\<close>

type_synonym cint = "32 word"

text \<open>
  Modelled from the spec: the constants \<^verbatim>\<open>join\<close> and \<^verbatim>\<open>detach\<close> are declared in
  \<^verbatim>\<open>tapa/base/task.h\<close>, which is not among the sources. The spec names them as the two
  instantiation modes; the dispatch of the invoker (see \<open>invoker_invoke_mode\<close>) schedules a
  mode as joined only when it is neither positive nor negative, and as detached when it
  is negative.
\<close>

definition join :: cint where
  "join = 0"

definition detach :: cint where
  "detach = - 1"

definition EXIT_SUCCESS :: nat where
  "EXIT_SUCCESS = 0"

definition sizeof_int64 :: nat where
  "sizeof_int64 = 8"

subsection \<open>Task functions, arguments and bound parameters\<close>

text \<open>
  The accessors are templates over the type \<^verbatim>\<open>Param\<close> of the callee's parameter, and what
  they hand on is converted to it: \<^verbatim>\<open>return arg;\<close> and \<^verbatim>\<open>static_cast<Param>(arg)\<close> for a
  forwarded argument, \<^verbatim>\<open>return arg.pos++;\<close> and \<^verbatim>\<open>static_cast<T>(arg.pos++)\<close> for a sequence
  object, whose counter is an \<^verbatim>\<open>int\<close>. A parameter type is given here by these two
  conversions: of a forwarded argument and of an \<^verbatim>\<open>int\<close> to a value of the type. (The
  conversion a return statement performs and the one \<^verbatim>\<open>static_cast\<close> performs are taken
  to be the same, as they are for arithmetic types.)
\<close>

record ('a, 'v) param_type =
  convert_arg :: "'a \<Rightarrow> 'v"
  convert_int :: "cint \<Rightarrow> 'v"

text \<open>
  A task function is a template parameter of the header: its body is not part of it. What
  the header asks of it at compile time is whether it is callable
  (\<^verbatim>\<open>internal::is_callable_v\<close>), what its return type is
  (\<^verbatim>\<open>function_traits<FuncType>::return_type\<close>) and what the types of its parameters are
  (\<^verbatim>\<open>function_traits<FuncType>::params\<close>, of which the header takes the element at a
  position with \<^verbatim>\<open>std::tuple_element_t\<close>). The traits come from
  \<^verbatim>\<open>tapa/host/internal_util.h\<close>, which is not among the sources, so their results are
  fields of the function's description.
\<close>

datatype ctype = VoidT | OtherT string

record ('a, 'v) func =
  fname :: string
  is_callable :: bool
  return_type :: ctype
  params :: "nat \<Rightarrow> ('a, 'v) param_type"

type_synonym addr = nat

text \<open>
  A call-site argument is either a \<^verbatim>\<open>tapa::seq\<close> object, given by its identity, or
  anything else (a scalar, a stream, a memory-mapped buffer). Which accessor template is
  chosen depends on this kind alone. A bound functor is the task function with the
  values \<^verbatim>\<open>std::bind\<close> copied into it.
\<close>

datatype 'a arg = Plain 'a | SeqObj addr

type_synonym ('a, 'v) bound = "('a, 'v) func \<times> 'v list"

subsection \<open>Events and state\<close>

text \<open>
  Modelled from the spec: the device runtime behind \<^verbatim>\<open>fpga::Instance\<close> (\<^verbatim>\<open>frt.h\<close>) is not
  among the sources. The spec lists its operations: open a device context from an
  artifact reference, set positional kernel arguments by index, write to the device,
  execute, read from the device, finish, and query the elapsed compute time in
  nanoseconds. Each operation is an event of the trace, next to the events for what the
  header itself does: running a bound functor, handing one to the scheduler, calling
  the task function directly, allocating and releasing the shared cell, \<^verbatim>\<open>fork\<close> and
  \<^verbatim>\<open>wait\<close>.
\<close>

datatype ('a, 'v) event =
    Run "('a, 'v) bound"
  | Schedule bool "('a, 'v) bound"
  | Call "('a, 'v) func" "'a arg list"
  | Instance string
  | SetArg nat 'v
  | WriteToDevice
  | Exec
  | ReadFromDevice
  | Finish
  | ComputeTimeNanoSeconds
  | Allocate nat
  | Deallocate nat
  | Fork
  | Wait

text \<open>
  \<open>seqs\<close> holds the field \<^verbatim>\<open>pos\<close> of every sequence object (the struct \<^verbatim>\<open>tapa::seq\<close> is
  declared outside this header, which uses this one field of it), \<open>shm\<close> the int64 cell
  obtained from \<^verbatim>\<open>allocate\<close> (\<open>None\<close> while no cell is allocated), \<open>clock\<close> the reading of
  \<^verbatim>\<open>std::chrono::steady_clock\<close> in nanoseconds, \<open>trace\<close> the events so far.
\<close>

record ('a, 'v) host =
  seqs :: "addr \<Rightarrow> cint"
  trace :: "('a, 'v) event list"
  clock :: nat
  shm :: "int option"

text \<open>
  What the surroundings decide: how long the task body takes on the steady clock, the
  compute time the device reports, the content of a freshly allocated cell, what
  \<^verbatim>\<open>fork\<close> and \<^verbatim>\<open>wait\<close> return, and whether the forked child is terminated before it
  reaches its own \<^verbatim>\<open>exit\<close> (a failure inside the device runtime is fatal to the process
  that runs it).
\<close>

datatype wstatus = Exited nat | Signaled nat

record env =
  call_ns :: nat
  compute_time_ns :: int
  fresh_cell :: int
  fork_result :: int
  wait_result :: int
  child_dies :: "wstatus option"

definition WIFEXITED :: "wstatus \<Rightarrow> bool" where
  "WIFEXITED s = (case s of Exited c \<Rightarrow> True | Signaled k \<Rightarrow> False)"

definition WEXITSTATUS :: "wstatus \<Rightarrow> nat" where
  "WEXITSTATUS s = (case s of Exited c \<Rightarrow> c | Signaled k \<Rightarrow> 0)"

definition emit :: "('a, 'v) event \<Rightarrow> ('a, 'v) host \<Rightarrow> ('a, 'v) host" where
  "emit e st = st\<lparr>trace := trace st @ [e]\<rparr>"

subsection \<open>The accessors\<close>

text \<open>
  \<^verbatim>\<open>accessor<Param, Arg>::access(Arg&&)\<close> returns the argument, as a \<^verbatim>\<open>Param\<close>; the
  specialisation \<^verbatim>\<open>accessor<T, seq>::access(seq&&)\<close> returns \<^verbatim>\<open>arg.pos++\<close>, as a \<^verbatim>\<open>T\<close>.
\<close>

fun accessor_access ::
  "('a, 'v) param_type \<Rightarrow> 'a arg \<Rightarrow> ('a, 'v) host \<Rightarrow> 'v \<times> ('a, 'v) host" where
  "accessor_access P (Plain x) st = (convert_arg P x, st)"
| "accessor_access P (SeqObj a) st =
     (convert_int P (seqs st a), st\<lparr>seqs := (seqs st)(a := seqs st a + 1)\<rparr>)"

text \<open>
  The overloads taking the device instance: \<^verbatim>\<open>instance.SetArg(idx++, ...)\<close> with
  \<^verbatim>\<open>static_cast<Param>(arg)\<close>, or with \<^verbatim>\<open>static_cast<T>(arg.pos++)\<close>. The result is the new
  \<^verbatim>\<open>idx\<close>.
\<close>

fun accessor_access_fpga ::
  "('a, 'v) param_type \<Rightarrow> nat \<Rightarrow> 'a arg \<Rightarrow> ('a, 'v) host \<Rightarrow> nat \<times> ('a, 'v) host" where
  "accessor_access_fpga P idx (Plain x) st = (idx + 1, emit (SetArg idx (convert_arg P x)) st)"
| "accessor_access_fpga P idx (SeqObj a) st =
     (idx + 1,
      emit (SetArg idx (convert_int P (seqs st a)))
        (st\<lparr>seqs := (seqs st)(a := seqs st a + 1)\<rparr>))"

subsection \<open>The invoker\<close>

datatype static_error = FirstArgumentMustBeCallable | TaskFunctionMustReturnVoid

text \<open>
  \<^verbatim>\<open>static_assert(std::is_same_v<void, ...::return_type>, "task function must return void")\<close>
  in the body of \<^verbatim>\<open>struct invoker\<close>: every use of a member of \<^verbatim>\<open>invoker<F>\<close> instantiates
  the struct, and the assertion decides at compile time whether there is anything to run.
\<close>

definition invoker :: "('a, 'v) func \<Rightarrow> 'r \<Rightarrow> static_error + 'r" where
  "invoker f r = (if return_type f = VoidT then Inr r else Inl TaskFunctionMustReturnVoid)"

text \<open>
  \<^verbatim>\<open>functor_with_accessors\<close> passes the results of the accessor calls, one per argument,
  to \<^verbatim>\<open>std::bind\<close>. They are the arguments of a function call, and the language leaves
  open in which order the arguments of a call are evaluated (one after the other, in
  some order the implementation chooses). The chosen order is a parameter \<open>ord\<close>: the
  accessor of the argument at position \<open>k\<close> runs before that at position \<open>l\<close> when
  \<open>ord k < ord l\<close>, and for equal values the left one runs first. Every permutation of
  the positions is the order of some \<open>ord\<close>.
\<close>

type_synonym eval_order = "nat \<Rightarrow> nat"

definition pack_order :: "eval_order \<Rightarrow> nat \<Rightarrow> nat list" where
  "pack_order ord n = sort_key ord [0..<n]"

text \<open>
  The accessor calls at the positions \<open>ks\<close>, in this order; the accessor at position \<open>k\<close>
  is \<^verbatim>\<open>accessor<std::tuple_element_t<k, Params>, ...>\<close>. Each result is kept with its
  position. The positions come from \<open>pack_order\<close>, a permutation of the positions of the
  argument list, so each of them is below its length.
\<close>

fun access_in_order ::
  "nat list \<Rightarrow> ('a, 'v) func \<Rightarrow> 'a arg list \<Rightarrow> ('a, 'v) host \<Rightarrow> (nat \<times> 'v) list \<times> ('a, 'v) host" where
  "access_in_order [] f args st = ([], st)"
| "access_in_order (k # ks) f args st =
     (let (v, st1) = accessor_access (params f k) (args ! k) st;
          (kvs, st2) = access_in_order ks f args st1
      in ((k, v) # kvs, st2))"

text \<open>
  The functor binds the results by position, whatever the order they were computed in;
  \<^verbatim>\<open>std::bind\<close> copies them, so the functor holds values.
\<close>

definition functor_with_accessors ::
  "eval_order \<Rightarrow> ('a, 'v) func \<Rightarrow> 'a arg list \<Rightarrow> ('a, 'v) host \<Rightarrow> ('a, 'v) bound \<times> ('a, 'v) host" where
  "functor_with_accessors ord f args st =
     (let (kvs, st1) = access_in_order (pack_order ord (length args)) f args st
      in ((f, map snd (sort_key fst kvs)), st1))"

definition run_functor :: "('a, 'v) bound \<Rightarrow> ('a, 'v) host \<Rightarrow> ('a, 'v) host" where
  "run_functor fn st = emit (Run fn) st"

text \<open>
  Modelled from the spec: \<^verbatim>\<open>internal::schedule\<close> is declared in \<^verbatim>\<open>tapa/host/coroutine.h\<close>,
  which is not among the sources. The spec's cooperative scheduler takes over a task
  instance together with its join or detach mode; handing the functor over is recorded
  with the flag the header passes.
\<close>

definition schedule :: "bool \<Rightarrow> ('a, 'v) bound \<Rightarrow> ('a, 'v) host \<Rightarrow> ('a, 'v) host" where
  "schedule detach_flag fn st = emit (Schedule detach_flag fn) st"

text \<open>\<^verbatim>\<open>invoker::invoke(int mode, F&& f, Args&&... args)\<close>.\<close>

definition invoker_invoke_mode ::
  "eval_order \<Rightarrow> cint \<Rightarrow> ('a, 'v) func \<Rightarrow> 'a arg list \<Rightarrow> ('a, 'v) host \<Rightarrow>
     static_error + ('a, 'v) host" where
  "invoker_invoke_mode ord mode f args st = invoker f
     (let (fn, st1) = functor_with_accessors ord f args st
      in if 0 <s mode then run_functor fn st1
         else schedule (mode <s 0) fn st1)"

text \<open>
  \<^verbatim>\<open>set_fpga_args\<close>: \<^verbatim>\<open>int idx = 0\<close>, then the accessor of each argument, each setting the
  kernel argument at \<^verbatim>\<open>idx\<close> and advancing it. Here the accessor calls are the elements
  of a braced initialiser list, which the language evaluates from left to right. \<open>k\<close> is
  the position in the pack, which selects the parameter type.
\<close>

fun set_args_from ::
  "('a, 'v) func \<Rightarrow> nat \<Rightarrow> nat \<Rightarrow> 'a arg list \<Rightarrow> ('a, 'v) host \<Rightarrow> ('a, 'v) host" where
  "set_args_from f k idx [] st = st"
| "set_args_from f k idx (x # xs) st =
     (let (idx1, st1) = accessor_access_fpga (params f k) idx x st
      in set_args_from f (Suc k) idx1 xs st1)"

definition set_fpga_args :: "('a, 'v) func \<Rightarrow> 'a arg list \<Rightarrow> ('a, 'v) host \<Rightarrow> ('a, 'v) host" where
  "set_fpga_args f args st = set_args_from f 0 0 args st"

text \<open>
  The private \<^verbatim>\<open>invoke(F&& f, const std::string& bitstream, Args&&... args)\<close>: the calls
  of the device runtime, in the order of the source. The time the last call reports is
  the environment's.
\<close>

definition invoker_invoke_fpga ::
  "env \<Rightarrow> ('a, 'v) func \<Rightarrow> string \<Rightarrow> 'a arg list \<Rightarrow> ('a, 'v) host \<Rightarrow> int \<times> ('a, 'v) host" where
  "invoker_invoke_fpga ev f bitstream args st =
     (let st1 = emit (Instance bitstream) st;
          st2 = set_fpga_args f args st1;
          st3 = emit WriteToDevice st2;
          st4 = emit Exec st3;
          st5 = emit ReadFromDevice st4;
          st6 = emit Finish st5
      in (compute_time_ns ev, emit ComputeTimeNanoSeconds st6))"

text \<open>
  How a call of the public \<^verbatim>\<open>invoke\<close> ends for the process that makes it: it returns a
  time, the process leaves through \<^verbatim>\<open>exit\<close>, or a \<^verbatim>\<open>CHECK\<close> fails and the process aborts.
\<close>

datatype outcome = Returned int | Exit nat | Fatal

text \<open>\<^verbatim>\<open>f(std::forward<Args>(args)...)\<close>: the body runs on the arguments as they are.\<close>

definition call :: "env \<Rightarrow> ('a, 'v) func \<Rightarrow> 'a arg list \<Rightarrow> ('a, 'v) host \<Rightarrow> ('a, 'v) host" where
  "call ev f args st = (emit (Call f args) st)\<lparr>clock := clock st + call_ns ev\<rparr>"

text \<open>
  Modelled from the spec: \<^verbatim>\<open>allocate\<close> and \<^verbatim>\<open>deallocate\<close> are declared in the header and
  defined elsewhere. By the spec they allocate and free a raw region of a given byte
  length, here the small region of shared memory that carries the kernel time.
\<close>

definition allocate :: "env \<Rightarrow> nat \<Rightarrow> ('a, 'v) host \<Rightarrow> ('a, 'v) host" where
  "allocate ev len st = (emit (Allocate len) st)\<lparr>shm := Some (fresh_cell ev)\<rparr>"

definition deallocate :: "nat \<Rightarrow> ('a, 'v) host \<Rightarrow> ('a, 'v) host" where
  "deallocate len st = (emit (Deallocate len) st)\<lparr>shm := None\<rparr>"

text \<open>
  The child's side of the fork:
  \<^verbatim>\<open>*kernel_time_ns = invoke(f, bitstream, args...); exit(EXIT_SUCCESS);\<close>
  The result is the code it exits with and its state at that point.
\<close>

definition child_branch ::
  "env \<Rightarrow> ('a, 'v) func \<Rightarrow> string \<Rightarrow> 'a arg list \<Rightarrow> ('a, 'v) host \<Rightarrow> nat \<times> ('a, 'v) host" where
  "child_branch ev f bitstream args st =
     (let (t, st1) = invoker_invoke_fpga ev f bitstream args st;
          st2 = st1\<lparr>shm := Some t\<rparr>
      in (EXIT_SUCCESS, st2))"

text \<open>
  \<^verbatim>\<open>fork\<close> and \<^verbatim>\<open>wait\<close> belong to the operating system. The child starts from a copy of the
  parent's state and runs \<open>child_branch\<close> up to its \<^verbatim>\<open>exit\<close>, unless it is terminated
  first; the parent's \<^verbatim>\<open>wait\<close> obtains the child's status, and of the child's memory
  only the shared cell is the parent's too.
\<close>

definition wait_child ::
  "env \<Rightarrow> ('a, 'v) func \<Rightarrow> string \<Rightarrow> 'a arg list \<Rightarrow> ('a, 'v) host \<Rightarrow> wstatus \<times> int option" where
  "wait_child ev f bitstream args st =
     (case child_dies ev of
        Some s \<Rightarrow> (s, shm st)
      | None \<Rightarrow>
          (let (code, cst) = child_branch ev f bitstream args st
           in (Exited code, shm cst)))"

text \<open>
  The public \<^verbatim>\<open>invoke(bool run_in_new_process, F&& f, const std::string& bitstream,
  Args&&... args)\<close>. In the parent the checks are, in order, \<^verbatim>\<open>PCHECK(pid != -1)\<close>,
  \<^verbatim>\<open>CHECK_EQ(wait(&status), pid)\<close>, \<^verbatim>\<open>CHECK(WIFEXITED(status))\<close> and
  \<^verbatim>\<open>CHECK_EQ(WEXITSTATUS(status), EXIT_SUCCESS)\<close>; the cell is read for the return value
  and then released by the deleter of the \<^verbatim>\<open>unique_ptr\<close>. A process that aborts or exits
  runs no deleter. The \<^verbatim>\<open>LOG(INFO)\<close> line of the first branch is not modelled.
\<close>

definition invoker_invoke ::
  "env \<Rightarrow> bool \<Rightarrow> ('a, 'v) func \<Rightarrow> string \<Rightarrow> 'a arg list \<Rightarrow> ('a, 'v) host \<Rightarrow>
     static_error + outcome \<times> ('a, 'v) host" where
  "invoker_invoke ev run_in_new_process f bitstream args st = invoker f
     (if bitstream = [] then
        (let tic = clock st;
             st1 = call ev f args st;
             toc = clock st1
         in (Returned (int toc - int tic), st1))
      else if run_in_new_process then
        (let st1 = allocate ev sizeof_int64 st;
             st2 = emit Fork st1;
             pid = fork_result ev
         in if pid \<noteq> 0 then
              (if pid = - 1 then (Fatal, st2)
               else
                 (let (status, cell) = wait_child ev f bitstream args st2;
                      st3 = (emit Wait st2)\<lparr>shm := cell\<rparr>
                  in if wait_result ev \<noteq> pid then (Fatal, st3)
                     else if \<not> WIFEXITED status then (Fatal, st3)
                     else if WEXITSTATUS status \<noteq> EXIT_SUCCESS then (Fatal, st3)
                     else (case shm st3 of
                             None \<Rightarrow> (Fatal, st3)
                           | Some v \<Rightarrow> (Returned v, deallocate sizeof_int64 st3))))
            else
              (let (code, cst) = child_branch ev f bitstream args st2
               in (Exit code, cst)))
      else
        (let (t, st1) = invoker_invoke_fpga ev f bitstream args st
         in (Returned t, st1)))"

subsection \<open>The parent task\<close>

record task =
  mode_override :: "cint option"

definition value_or :: "'b option \<Rightarrow> 'b \<Rightarrow> 'b" where
  "value_or opt d = (case opt of None \<Rightarrow> d | Some v \<Rightarrow> v)"

text \<open>
  \<^verbatim>\<open>invoke<mode>(func, name, args...)\<close>: the assertion on \<^verbatim>\<open>is_callable_v\<close>, the dispatch of
  the invoker with \<^verbatim>\<open>mode_override.value_or(mode)\<close>, and \<^verbatim>\<open>return *this\<close>. The name is not
  used by the body.
\<close>

definition task_invoke_mode_name ::
  "eval_order \<Rightarrow> cint \<Rightarrow> ('a, 'v) func \<Rightarrow> string \<Rightarrow> 'a arg list \<Rightarrow> task \<Rightarrow> ('a, 'v) host \<Rightarrow>
     static_error + task \<times> ('a, 'v) host" where
  "task_invoke_mode_name ord mode f name args t st =
     (if \<not> is_callable f then Inl FirstArgumentMustBeCallable
      else (case invoker_invoke_mode ord (value_or (mode_override t) mode) f args st of
              Inl e \<Rightarrow> Inl e
            | Inr st1 \<Rightarrow> Inr (t, st1)))"

text \<open>\<^verbatim>\<open>invoke(func, args...)\<close>, \<^verbatim>\<open>invoke<mode>(func, args...)\<close> and \<^verbatim>\<open>invoke(func, name, args...)\<close>.\<close>

definition task_invoke ::
  "eval_order \<Rightarrow> ('a, 'v) func \<Rightarrow> 'a arg list \<Rightarrow> task \<Rightarrow> ('a, 'v) host \<Rightarrow>
     static_error + task \<times> ('a, 'v) host" where
  "task_invoke ord f args t st = task_invoke_mode_name ord join f [] args t st"

definition task_invoke_mode ::
  "eval_order \<Rightarrow> cint \<Rightarrow> ('a, 'v) func \<Rightarrow> 'a arg list \<Rightarrow> task \<Rightarrow> ('a, 'v) host \<Rightarrow>
     static_error + task \<times> ('a, 'v) host" where
  "task_invoke_mode ord mode f args t st = task_invoke_mode_name ord mode f [] args t st"

definition task_invoke_name ::
  "eval_order \<Rightarrow> ('a, 'v) func \<Rightarrow> string \<Rightarrow> 'a arg list \<Rightarrow> task \<Rightarrow> ('a, 'v) host \<Rightarrow>
     static_error + task \<times> ('a, 'v) host" where
  "task_invoke_name ord f name args t st = task_invoke_mode_name ord join f name args t st"

text \<open>
  The loop of \<^verbatim>\<open>invoke<mode, n>(func, name, args...)\<close>:
  \<^verbatim>\<open>for (int i = 0; i < n; ++i) invoke<mode>(func, args...);\<close>
  The value each call returns is dropped. The loop body is one call site, compiled
  once, so every iteration evaluates the accessors in the same order.
\<close>

function invoke_loop ::
  "eval_order \<Rightarrow> int \<Rightarrow> int \<Rightarrow> cint \<Rightarrow> ('a, 'v) func \<Rightarrow> 'a arg list \<Rightarrow> task \<Rightarrow> ('a, 'v) host \<Rightarrow>
     static_error + ('a, 'v) host" where
  "invoke_loop ord i n mode f args t st =
     (if i < n then
        (case task_invoke_mode ord mode f args t st of
           Inl e \<Rightarrow> Inl e
         | Inr (t1, st1) \<Rightarrow> invoke_loop ord (i + 1) n mode f args t st1)
      else Inr st)"
  by pat_completeness auto
termination
  by (relation "measure (\<lambda>(ord, i, n, mode, f, args, t, st). nat (n - i))") auto

text \<open>
  \<^verbatim>\<open>invoke<mode, n>(func, name, args...)\<close>. Instantiating this template instantiates the
  \<^verbatim>\<open>invoke<mode>\<close> its body names, with both assertions, whether or not the loop will
  run; then the loop, and \<^verbatim>\<open>return *this\<close>.
\<close>

definition task_invoke_mode_n_name ::
  "eval_order \<Rightarrow> cint \<Rightarrow> int \<Rightarrow> ('a, 'v) func \<Rightarrow> string \<Rightarrow> 'a arg list \<Rightarrow> task \<Rightarrow> ('a, 'v) host \<Rightarrow>
     static_error + task \<times> ('a, 'v) host" where
  "task_invoke_mode_n_name ord mode n f name args t st =
     (if \<not> is_callable f then Inl FirstArgumentMustBeCallable
      else (case invoker f () of
              Inl e \<Rightarrow> Inl e
            | Inr u \<Rightarrow>
                (case invoke_loop ord 0 n mode f args t st of
                   Inl e \<Rightarrow> Inl e
                 | Inr st1 \<Rightarrow> Inr (t, st1))))"

definition task_invoke_mode_n ::
  "eval_order \<Rightarrow> cint \<Rightarrow> int \<Rightarrow> ('a, 'v) func \<Rightarrow> 'a arg list \<Rightarrow> task \<Rightarrow> ('a, 'v) host \<Rightarrow>
     static_error + task \<times> ('a, 'v) host" where
  "task_invoke_mode_n ord mode n f args t st = task_invoke_mode_n_name ord mode n f [] args t st"

subsection \<open>Describing the effect of a binding\<close>

text \<open>
  For the statements below: the sequence objects named by an argument list, in order;
  the counters after \<open>k\<close> bindings of the list (each occurrence of an object in the list
  is one access, so one increment); the parameters one software binding yields from
  given counters under an evaluation order; the parameters the device receives from
  given counters, the first of them for position \<open>k\<close>; the parameter bound at a position
  when the counters are read as they are; the parameter of replica \<open>i\<close> at a position;
  and the event the dispatch of the invoker leaves for a mode and a functor.
\<close>

fun seq_objs :: "'a arg list \<Rightarrow> addr list" where
  "seq_objs [] = []"
| "seq_objs (Plain x # xs) = seq_objs xs"
| "seq_objs (SeqObj a # xs) = a # seq_objs xs"

definition advance :: "'a arg list \<Rightarrow> nat \<Rightarrow> (addr \<Rightarrow> cint) \<Rightarrow> addr \<Rightarrow> cint" where
  "advance args k s = (\<lambda>a. s a + of_nat (k * count_list (seq_objs args) a))"

definition bound_params ::
  "eval_order \<Rightarrow> ('a, 'v) func \<Rightarrow> (addr \<Rightarrow> cint) \<Rightarrow> 'a arg list \<Rightarrow> 'v list" where
  "bound_params ord f s args =
     snd (fst (functor_with_accessors ord f args \<lparr>seqs = s, trace = [], clock = 0, shm = None\<rparr>))"

fun device_params ::
  "('a, 'v) func \<Rightarrow> nat \<Rightarrow> (addr \<Rightarrow> cint) \<Rightarrow> 'a arg list \<Rightarrow> 'v list" where
  "device_params f k s [] = []"
| "device_params f k s (Plain x # xs) =
     convert_arg (params f k) x # device_params f (Suc k) s xs"
| "device_params f k s (SeqObj a # xs) =
     convert_int (params f k) (s a) # device_params f (Suc k) (s(a := s a + 1)) xs"

fun bind_param :: "('a, 'v) func \<Rightarrow> (addr \<Rightarrow> cint) \<Rightarrow> nat \<Rightarrow> 'a arg \<Rightarrow> 'v" where
  "bind_param f s k (Plain x) = convert_arg (params f k) x"
| "bind_param f s k (SeqObj a) = convert_int (params f k) (s a)"

fun replica_param :: "('a, 'v) func \<Rightarrow> nat \<Rightarrow> nat \<Rightarrow> 'a arg \<Rightarrow> 'v" where
  "replica_param f i k (Plain x) = convert_arg (params f k) x"
| "replica_param f i k (SeqObj a) = convert_int (params f k) (of_nat i)"

definition child_event :: "cint \<Rightarrow> ('a, 'v) bound \<Rightarrow> ('a, 'v) event" where
  "child_event m fn = (if 0 <s m then Run fn else Schedule (m <s 0) fn)"


subsection \<open>Example inputs\<close>

text \<open>
  Inputs for the instances evaluated below. Arguments and parameter values are integers.
  A parameter of type \<^verbatim>\<open>int\<close> receives a forwarded integer as it is and a counter as its
  signed value; a parameter of type \<^verbatim>\<open>uint8_t\<close> receives either reduced modulo 256.
  Two evaluation orders: from left to right, and from right to left for a call with
  \<open>n + 1\<close> arguments.
\<close>

definition int_param :: "(int, int) param_type" where
  "int_param = \<lparr>convert_arg = (\<lambda>x. x), convert_int = sint\<rparr>"

definition uint8_param :: "(int, int) param_type" where
  "uint8_param = \<lparr>convert_arg = take_bit 8, convert_int = (\<lambda>w. take_bit 8 (sint w))\<rparr>"

definition Add :: "(int, int) func" where
  "Add = \<lparr>fname = ''Add'', is_callable = True, return_type = VoidT, params = (\<lambda>k. int_param)\<rparr>"

definition Mul :: "(int, int) func" where
  "Mul = \<lparr>fname = ''Mul'', is_callable = True, return_type = VoidT, params = (\<lambda>k. int_param)\<rparr>"

definition Narrow :: "(int, int) func" where
  "Narrow = \<lparr>fname = ''Narrow'', is_callable = True, return_type = VoidT,
             params = (\<lambda>k. uint8_param)\<rparr>"

definition Sum :: "(int, int) func" where
  "Sum = \<lparr>fname = ''Sum'', is_callable = True, return_type = OtherT ''int'',
          params = (\<lambda>k. int_param)\<rparr>"

definition plain_task :: task where
  "plain_task = \<lparr>mode_override = None\<rparr>"

definition left_to_right :: eval_order where
  "left_to_right k = k"

definition right_to_left :: "nat \<Rightarrow> eval_order" where
  "right_to_left n k = n - k"

definition some_env :: env where
  "some_env = \<lparr>call_ns = 1500, compute_time_ns = 900, fresh_cell = 0, fork_result = 42,
                wait_result = 42, child_dies = None\<rparr>"

section \<open>Properties\<close>

subsection \<open>Binding an argument list\<close>

lemma access_in_order_frame:
  "trace (snd (access_in_order ks f args st)) = trace st \<and>
   clock (snd (access_in_order ks f args st)) = clock st \<and>
   shm (snd (access_in_order ks f args st)) = shm st"
proof (induction ks arbitrary: st)
  case Nil
  then show ?case by simp
next
  case (Cons k ks)
  then show ?case by (cases "args ! k") (simp_all add: case_prod_beta)
qed

lemma access_in_order_seqs:
  "seqs (snd (access_in_order ks f args st)) =
     (\<lambda>a. seqs st a + of_nat (length (filter (\<lambda>k. args ! k = SeqObj a) ks)))"
proof (induction ks arbitrary: st)
  case Nil
  then show ?case by simp
next
  case (Cons k ks)
  then show ?case
    by (cases "args ! k") (auto simp: fun_eq_iff case_prod_beta)
qed

lemma access_in_order_cong:
  "seqs st = seqs st' \<Longrightarrow>
   fst (access_in_order ks f args st) = fst (access_in_order ks f args st')"
proof (induction ks arbitrary: st st')
  case Nil
  then show ?case by simp
next
  case (Cons k ks)
  show ?case
  proof (cases "args ! k")
    case (Plain x)
    then show ?thesis using Cons.IH [OF Cons.prems] by (simp add: case_prod_beta)
  next
    case (SeqObj a)
    have "seqs (st\<lparr>seqs := (seqs st)(a := seqs st a + 1)\<rparr>) =
          seqs (st'\<lparr>seqs := (seqs st')(a := seqs st' a + 1)\<rparr>)"
      using Cons.prems by simp
    from Cons.IH [OF this] show ?thesis
      using SeqObj Cons.prems by (simp add: case_prod_beta)
  qed
qed

lemma count_seq_objs: "count_list (seq_objs args) a = length (filter (\<lambda>x. x = SeqObj a) args)"
proof (induction args)
  case Nil
  then show ?case by simp
next
  case (Cons x xs)
  then show ?case by (cases x) auto
qed

lemma filter_positions:
  "length (filter (\<lambda>k. P (args ! k)) [0..<length args]) = length (filter P args)"
proof -
  have "filter P (map (\<lambda>k. args ! k) [0..<length args]) =
        map (\<lambda>k. args ! k) (filter (\<lambda>k. P (args ! k)) [0..<length args])"
    by (simp add: filter_map comp_def)
  then have "length (filter P (map (\<lambda>k. args ! k) [0..<length args])) =
        length (filter (\<lambda>k. P (args ! k)) [0..<length args])"
    by simp
  then show ?thesis by (simp add: map_nth)
qed

lemma pack_order_distinct: "distinct (pack_order ord n)"
  by (simp add: pack_order_def)

lemma pack_order_set: "set (pack_order ord n) = {0..<n}"
  by (simp add: pack_order_def)

lemma accesses_in_pack_order:
  "length (filter (\<lambda>k. args ! k = SeqObj a) (pack_order ord (length args))) =
     count_list (seq_objs args) a"
proof -
  have "length (filter (\<lambda>k. args ! k = SeqObj a) (pack_order ord (length args))) =
        card ({k. args ! k = SeqObj a} \<inter> {0..<length args})"
    using distinct_length_filter [OF pack_order_distinct, of "\<lambda>k. args ! k = SeqObj a" ord "length args"]
    by (simp add: pack_order_set)
  also have "\<dots> = length (filter (\<lambda>k. args ! k = SeqObj a) [0..<length args])"
    using distinct_length_filter [OF distinct_upt, of "\<lambda>k. args ! k = SeqObj a" 0 "length args"]
    by simp
  also have "\<dots> = length (filter (\<lambda>x. x = SeqObj a) args)"
    by (rule filter_positions)
  finally show ?thesis by (simp add: count_seq_objs)
qed

lemma functor_with_accessors_eq:
  fixes f :: "('a, 'v) func"
  shows "functor_with_accessors ord f args st =
     ((f, bound_params ord f (seqs st) args), st\<lparr>seqs := advance args 1 (seqs st)\<rparr>)"
proof -
  let ?ks = "pack_order ord (length args)"
  let ?blank = "\<lparr>seqs = seqs st, trace = [], clock = 0, shm = None\<rparr> :: ('a, 'v) host"
  have vals: "fst (access_in_order ?ks f args st) = fst (access_in_order ?ks f args ?blank)"
    by (rule access_in_order_cong) simp
  have "seqs (snd (access_in_order ?ks f args st)) = advance args 1 (seqs st)"
    by (simp add: access_in_order_seqs accesses_in_pack_order advance_def)
  then have state: "snd (access_in_order ?ks f args st) = st\<lparr>seqs := advance args 1 (seqs st)\<rparr>"
    using access_in_order_frame [of ?ks f args st]
    by (cases st, cases "snd (access_in_order ?ks f args st)") simp
  show ?thesis
    using vals state
    by (simp add: functor_with_accessors_def bound_params_def case_prod_beta)
qed


lemma seq_at_mem: "k < length args \<Longrightarrow> args ! k = SeqObj a \<Longrightarrow> a \<in> set (seq_objs args)"
proof (induction args arbitrary: k)
  case Nil
  then show ?case by simp
next
  case (Cons x xs)
  then show ?case by (cases x; cases k) auto
qed

lemma seq_positions_unique:
  "distinct (seq_objs args) \<Longrightarrow> i < length args \<Longrightarrow> j < length args \<Longrightarrow>
   args ! i = SeqObj a \<Longrightarrow> args ! j = SeqObj a \<Longrightarrow> i = j"
proof (induction args arbitrary: i j)
  case Nil
  then show ?case by simp
next
  case (Cons x xs)
  then show ?case
    by (cases x; cases i; cases j) (auto dest: seq_at_mem)
qed

lemma access_in_order_distinct:
  "distinct ks \<Longrightarrow> set ks \<subseteq> {0..<length args} \<Longrightarrow> distinct (seq_objs args) \<Longrightarrow>
   (\<And>k a. k \<in> set ks \<Longrightarrow> args ! k = SeqObj a \<Longrightarrow> seqs st a = s a) \<Longrightarrow>
   fst (access_in_order ks f args st) = map (\<lambda>k. (k, bind_param f s k (args ! k))) ks"
proof (induction ks arbitrary: st)
  case Nil
  then show ?case by simp
next
  case (Cons k ks)
  from Cons.prems have d: "distinct ks" and sub: "set ks \<subseteq> {0..<length args}"
    and kn: "k \<notin> set ks" and kl: "k < length args"
    by auto
  show ?case
  proof (cases "args ! k")
    case (Plain x)
    have "fst (access_in_order ks f args st) = map (\<lambda>k. (k, bind_param f s k (args ! k))) ks"
      using Cons.prems(4) by (intro Cons.IH [OF d sub Cons.prems(3)]) auto
    then show ?thesis using Plain by (simp add: case_prod_beta)
  next
    case (SeqObj a)
    let ?st1 = "st\<lparr>seqs := (seqs st)(a := seqs st a + 1)\<rparr>"
    have here: "seqs st a = s a"
      using Cons.prems(4) [of k a] SeqObj by simp
    have rest: "\<And>k' a'. k' \<in> set ks \<Longrightarrow> args ! k' = SeqObj a' \<Longrightarrow> seqs ?st1 a' = s a'"
    proof -
      fix k' a'
      assume k': "k' \<in> set ks" and a': "args ! k' = SeqObj a'"
      have "k' < length args" using sub k' by auto
      then have "a' \<noteq> a"
        using seq_positions_unique [OF Cons.prems(3) kl, of k' a] SeqObj a' k' kn by auto
      then show "seqs ?st1 a' = s a'"
        using Cons.prems(4) [of k' a'] k' a' by simp
    qed
    have "fst (access_in_order ks f args ?st1) = map (\<lambda>k. (k, bind_param f s k (args ! k))) ks"
      by (rule Cons.IH [OF d sub Cons.prems(3) rest])
    then show ?thesis using SeqObj here by (simp add: case_prod_beta)
  qed
qed

lemma by_position:
  assumes "distinct ks" and "set ks = {0..<n}"
  shows "map snd (sort_key fst (map (\<lambda>k. (k, g k)) ks)) = map g [0..<n]"
proof -
  let ?L = "map (\<lambda>k. (k, g k)) ks"
  let ?S = "sort_key fst ?L"
  have fsts: "map fst ?L = ks" by (simp add: comp_def)
  have "distinct (map fst ?S)"
  proof -
    have "inj_on fst (set ?L)" by (auto simp: inj_on_def)
    moreover have "distinct ?L" using assms(1) by (simp add: distinct_map inj_on_def)
    ultimately show ?thesis by (simp add: distinct_map)
  qed
  moreover have "sorted (map fst ?S)" by (rule sorted_sort_key)
  moreover have "set (map fst ?S) = {0..<n}"
    using assms(2) by (simp add: image_comp comp_def)
  ultimately have pos: "map fst ?S = [0..<n]"
    by (intro sorted_distinct_set_unique) simp_all
  have "\<forall>p \<in> set ?S. snd p = g (fst p)" by auto
  then have "map snd ?S = map (\<lambda>p. g (fst p)) ?S" by simp
  also have "\<dots> = map g (map fst ?S)" by (simp add: comp_def)
  finally show ?thesis using pos by simp
qed

lemma enumerate_positions:
  "map (\<lambda>(k, x). h k x) (enumerate 0 args) = map (\<lambda>k. h k (args ! k)) [0..<length args]"
  by (rule nth_equalityI) (simp_all add: nth_enumerate_eq)

lemma bound_params_distinct:
  fixes f :: "('a, 'v) func"
  assumes "distinct (seq_objs args)"
  shows "bound_params ord f s args = map (\<lambda>(k, x). bind_param f s k x) (enumerate 0 args)"
proof -
  let ?ks = "pack_order ord (length args)"
  let ?blank = "\<lparr>seqs = s, trace = [], clock = 0, shm = None\<rparr> :: ('a, 'v) host"
  have "fst (access_in_order ?ks f args ?blank) =
          map (\<lambda>k. (k, bind_param f s k (args ! k))) ?ks"
    by (rule access_in_order_distinct [OF pack_order_distinct _ assms])
       (simp_all add: pack_order_set)
  then have "bound_params ord f s args =
          map snd (sort_key fst (map (\<lambda>k. (k, bind_param f s k (args ! k))) ?ks))"
    by (simp add: bound_params_def functor_with_accessors_def case_prod_beta)
  also have "\<dots> = map (\<lambda>k. bind_param f s k (args ! k)) [0..<length args]"
    by (rule by_position [OF pack_order_distinct pack_order_set])
  finally show ?thesis by (simp add: enumerate_positions)
qed


lemma advance_Nil: "advance [] k s = s"
  by (simp add: advance_def)

lemma advance_Plain: "advance (Plain x # xs) k s = advance xs k s"
  by (simp add: advance_def)

lemma advance_SeqObj: "advance xs (Suc 0) (s(a := s a + 1)) = advance (SeqObj a # xs) (Suc 0) s"
  by (auto simp: advance_def fun_eq_iff)

lemma fun_upd_unfolded: "(\<lambda>b. if b = a then v else s b) = s(a := v)"
  by (simp add: fun_upd_def)

lemma advance_advance: "advance args j (advance args (Suc 0) s) = advance args (Suc j) s"
  by (simp add: advance_def fun_eq_iff algebra_simps)

lemma set_args_from_eq:
  "set_args_from f k idx args st =
     st\<lparr>seqs := advance args 1 (seqs st),
        trace := trace st @
          map (\<lambda>(i, p). SetArg i p) (enumerate idx (device_params f k (seqs st) args))\<rparr>"
proof (induction args arbitrary: k idx st)
  case Nil
  then show ?case by (simp add: advance_Nil)
next
  case (Cons x xs)
  show ?case
  proof (cases x)
    case (Plain v)
    show ?thesis
      by (simp add: Plain Cons.IH emit_def advance_Plain)
  next
    case (SeqObj a)
    show ?thesis
      by (simp add: SeqObj Cons.IH emit_def fun_upd_unfolded advance_SeqObj)
  qed
qed






subsection \<open>The dispatch and the replication loop\<close>

lemma dispatch_eq:
  "return_type f = VoidT \<Longrightarrow>
   invoker_invoke_mode ord m f args st =
     Inr (st\<lparr>seqs := advance args 1 (seqs st),
             trace := trace st @ [child_event m (f, bound_params ord f (seqs st) args)]\<rparr>)"
  by (simp add: invoker_invoke_mode_def invoker_def functor_with_accessors_eq
      run_functor_def schedule_def emit_def child_event_def)

lemma task_invoke_mode_eq:
  "is_callable f \<Longrightarrow> return_type f = VoidT \<Longrightarrow>
   task_invoke_mode_name ord mode f name args t st =
     Inr (t, st\<lparr>seqs := advance args 1 (seqs st),
                trace := trace st @
                  [child_event (value_or (mode_override t) mode)
                     (f, bound_params ord f (seqs st) args)]\<rparr>)"
  by (simp add: task_invoke_mode_name_def dispatch_eq)

lemma invoke_loop_eq:
  "is_callable f \<Longrightarrow> return_type f = VoidT \<Longrightarrow> k = nat (n - i) \<Longrightarrow>
   invoke_loop ord i n mode f args t st =
     Inr (st\<lparr>seqs := advance args k (seqs st),
             trace := trace st @
               map (\<lambda>j. child_event (value_or (mode_override t) mode)
                          (f, bound_params ord f (advance args j (seqs st)) args)) [0..<k]\<rparr>)"
proof (induction k arbitrary: i st)
  case 0
  then have "\<not> i < n" by simp
  then show ?case by (simp add: advance_def)
next
  case (Suc k)
  then have lt: "i < n" and k: "k = nat (n - (i + 1))" by simp_all
  let ?m = "value_or (mode_override t) mode"
  let ?st1 = "st\<lparr>seqs := advance args 1 (seqs st),
                 trace := trace st @ [child_event ?m (f, bound_params ord f (seqs st) args)]\<rparr>"
  have step: "task_invoke_mode ord mode f args t st = Inr (t, ?st1)"
    using Suc.prems by (simp add: task_invoke_mode_def task_invoke_mode_eq)
  have "invoke_loop ord i n mode f args t st = invoke_loop ord (i + 1) n mode f args t ?st1"
    using lt step by (subst invoke_loop.simps) simp
  also have "\<dots> = Inr (?st1\<lparr>seqs := advance args k (seqs ?st1),
             trace := trace ?st1 @
               map (\<lambda>j. child_event ?m (f, bound_params ord f (advance args j (seqs ?st1)) args))
                 [0..<k]\<rparr>)"
    by (rule Suc.IH [OF Suc.prems(1) Suc.prems(2) k])
  also have "\<dots> = Inr (st\<lparr>seqs := advance args (Suc k) (seqs st),
             trace := trace st @
               map (\<lambda>j. child_event ?m (f, bound_params ord f (advance args j (seqs st)) args))
                 [0..<Suc k]\<rparr>)"
    by (simp add: advance_advance map_upt_Suc advance_Nil del: upt_Suc)
       (simp add: advance_def)
  finally show ?case .
qed


lemma count_list_distinct:
  "distinct xs \<Longrightarrow> x \<in> set xs \<Longrightarrow> count_list xs x = 1"
  by (induction xs) auto

lemma seq_objs_mem: "SeqObj a \<in> set args \<Longrightarrow> a \<in> set (seq_objs args)"
proof (induction args)
  case Nil
  then show ?case by simp
next
  case (Cons y ys)
  then show ?case by (cases y) auto
qed

lemma bind_param_advance:
  assumes "distinct (seq_objs args)" and "\<forall>a \<in> set (seq_objs args). s a = 0"
    and "x \<in> set args"
  shows "bind_param f (advance args i s) k x = replica_param f i k x"
proof (cases x)
  case (Plain v)
  then show ?thesis by simp
next
  case (SeqObj a)
  have mem: "a \<in> set (seq_objs args)"
    using assms(3) SeqObj by (simp add: seq_objs_mem)
  then have "count_list (seq_objs args) a = 1"
    using assms(1) by (simp add: count_list_distinct)
  then show ?thesis using SeqObj mem assms(2) by (simp add: advance_def)
qed

lemma replica_params:
  assumes "distinct (seq_objs args)" and "\<forall>a \<in> set (seq_objs args). s a = 0"
  shows "bound_params ord f (advance args i s) args =
           map (\<lambda>(k, x). replica_param f i k x) (enumerate 0 args)"
proof -
  have "bound_params ord f (advance args i s) args =
          map (\<lambda>(k, x). bind_param f (advance args i s) k x) (enumerate 0 args)"
    using assms(1) by (rule bound_params_distinct)
  also have "\<dots> = map (\<lambda>(k, x). replica_param f i k x) (enumerate 0 args)"
    using assms by (auto simp: bind_param_advance in_set_enumerate_eq)
  finally show ?thesis .
qed

lemma index_value: "i < 2 ^ 31 \<Longrightarrow> sint (of_nat i :: cint) = int i"
  by (simp add: signed_of_nat signed_take_bit_int_eq_self)

subsection \<open>Evaluating the example inputs\<close>

lemmas ex_defs = int_param_def uint8_param_def Add_def Mul_def Narrow_def Sum_def plain_task_def
  left_to_right_def right_to_left_def some_env_def

lemmas eval_defs = bound_params_def functor_with_accessors_def pack_order_def child_event_def
  value_or_def join_def detach_def advance_def

subsection \<open>Replicated instantiation\<close>

text \<open>
  C1, as amended. The replicating \<^verbatim>\<open>invoke<mode, n>\<close> of a callable task function returning
  void instantiates exactly \<open>n\<close> children (none when \<open>n\<close> is not positive): the trace grows
  by one event per \<open>i\<close> in \<open>0, ..., n - 1\<close>, in this order. Every replica is dispatched
  under the same mode, \<^verbatim>\<open>mode_override.value_or(mode)\<close>. When every sequence argument of
  the list is an object of its own and its counter starts at 0, the parameters of
  replica \<open>i\<close> are, in whatever order the accessor calls are evaluated: each other
  argument converted to the type of the callee's parameter, the same for every replica,
  and each sequence argument as the counter value \<open>i\<close> converted to the type of the
  callee's parameter. (The counter value is the word \<open>of_nat i\<close>, whose signed value is
  \<open>i\<close> for every count an \<^verbatim>\<open>int\<close> can hold, see \<open>index_value\<close>.)
\<close>

theorem replicating_invoke_instances:
  assumes "is_callable f" and "return_type f = VoidT"
    and "distinct (seq_objs args)" and "\<forall>a \<in> set (seq_objs args). seqs st a = 0"
  shows "task_invoke_mode_n_name ord mode n f name args t st =
           Inr (t, st\<lparr>seqs := advance args (nat n) (seqs st),
                      trace := trace st @
                        map (\<lambda>i. child_event (value_or (mode_override t) mode)
                                   (f, map (\<lambda>(k, x). replica_param f i k x) (enumerate 0 args)))
                          [0..<nat n]\<rparr>)"
proof -
  have "invoke_loop ord 0 n mode f args t st =
     Inr (st\<lparr>seqs := advance args (nat n) (seqs st),
             trace := trace st @
               map (\<lambda>j. child_event (value_or (mode_override t) mode)
                          (f, bound_params ord f (advance args j (seqs st)) args)) [0..<nat n]\<rparr>)"
    using assms(1,2) by (rule invoke_loop_eq) simp
  then show ?thesis
    using assms by (simp add: task_invoke_mode_n_name_def invoker_def replica_params)
qed

theorem replicating_invoke_instances_witness:
  "distinct (seq_objs [Plain (7::int), SeqObj 0]) \<and>
   task_invoke_mode_n_name (right_to_left 1) detach 3 Add ''add'' [Plain 7, SeqObj 0] plain_task
      \<lparr>seqs = (\<lambda>a. 0), trace = [], clock = 0, shm = None\<rparr> =
   Inr (plain_task,
        \<lparr>seqs = advance [Plain (7::int), SeqObj 0] 3 (\<lambda>a. 0),
         trace = [Schedule True (Add, [7, 0]), Schedule True (Add, [7, 1]),
                  Schedule True (Add, [7, 2])],
         clock = 0, shm = None\<rparr>)"
  using replicating_invoke_instances [of Add "[Plain 7, SeqObj 0]"
      "\<lparr>seqs = (\<lambda>a. 0), trace = [], clock = 0, shm = None\<rparr>"
      "right_to_left 1" detach 3 "''add''" plain_task]
  by (simp add: child_event_def value_or_def detach_def upt_rec numeral_nat ex_defs)

text \<open>
  C1 does not hold for every argument list and every task function. When one sequence
  object is passed twice, each replica accesses it twice: with two replicas the indices
  bound are 0, 1 and 2, 3 when the accessor calls run from left to right, and 1, 0 and
  3, 2 when they run from right to left, never 0, 0 and 1, 1. And the index is converted
  to the type of the parameter: with a parameter of type \<^verbatim>\<open>uint8_t\<close>, replica 300 of 301
  receives 44, not 300.
\<close>

theorem replicating_invoke_counterexample:
  "task_invoke_mode_n_name left_to_right join 2 Add [] [SeqObj 0, SeqObj 0] plain_task
      \<lparr>seqs = (\<lambda>a. 0), trace = [], clock = 0, shm = None\<rparr> =
   Inr (plain_task,
        \<lparr>seqs = advance [SeqObj 0, SeqObj 0 :: int arg] 2 (\<lambda>a. 0),
         trace = [Schedule False (Add, [0, 1]), Schedule False (Add, [2, 3])],
         clock = 0, shm = None\<rparr>) \<and>
   task_invoke_mode_n_name (right_to_left 1) join 2 Add [] [SeqObj 0, SeqObj 0] plain_task
      \<lparr>seqs = (\<lambda>a. 0), trace = [], clock = 0, shm = None\<rparr> =
   Inr (plain_task,
        \<lparr>seqs = advance [SeqObj 0, SeqObj 0 :: int arg] 2 (\<lambda>a. 0),
         trace = [Schedule False (Add, [1, 0]), Schedule False (Add, [3, 2])],
         clock = 0, shm = None\<rparr>) \<and>
   [Schedule False (Add, [0, 1]), Schedule False (Add, [2, 3])] \<noteq>
     [Schedule False (Add, [0, 0]), Schedule False (Add, [1, 1])] \<and>
   [Schedule False (Add, [1, 0]), Schedule False (Add, [3, 2])] \<noteq>
     [Schedule False (Add, [0, 0]), Schedule False (Add, [1, 1])] \<and>
   map_sum id (\<lambda>(t, st). trace st ! 300)
     (task_invoke_mode_n_name left_to_right join 301 Narrow [] [SeqObj 0] plain_task
        \<lparr>seqs = (\<lambda>a. 0), trace = [], clock = 0, shm = None\<rparr>) =
   Inr (Schedule False (Narrow, [44])) \<and>
   Schedule False (Narrow, [44]) \<noteq> Schedule False (Narrow, [300])"
proof -
  let ?st = "\<lparr>seqs = (\<lambda>a. 0), trace = [], clock = 0, shm = None\<rparr> :: (int, int) host"
  have ok: "is_callable Add" "return_type Add = VoidT" "is_callable Narrow"
    "return_type Narrow = VoidT"
    by (simp_all add: ex_defs)
  note twice = invoke_loop_eq [OF ok(1,2) refl, where n = 2 and i = 0 and mode = join
      and args = "[SeqObj 0, SeqObj 0]" and t = plain_task and st = ?st]
  have first: "task_invoke_mode_n_name left_to_right join 2 Add [] [SeqObj 0, SeqObj 0] plain_task ?st =
     Inr (plain_task,
        \<lparr>seqs = advance [SeqObj 0, SeqObj 0 :: int arg] 2 (\<lambda>a. 0),
         trace = [Schedule False (Add, [0, 1]), Schedule False (Add, [2, 3])],
         clock = 0, shm = None\<rparr>)"
    unfolding task_invoke_mode_n_name_def twice
    by (simp add: invoker_def eval_defs ex_defs upt_rec numeral_nat del: invoke_loop.simps)
  have second: "task_invoke_mode_n_name (right_to_left 1) join 2 Add [] [SeqObj 0, SeqObj 0] plain_task ?st =
     Inr (plain_task,
        \<lparr>seqs = advance [SeqObj 0, SeqObj 0 :: int arg] 2 (\<lambda>a. 0),
         trace = [Schedule False (Add, [1, 0]), Schedule False (Add, [3, 2])],
         clock = 0, shm = None\<rparr>)"
    unfolding task_invoke_mode_n_name_def twice
    by (simp add: invoker_def eval_defs ex_defs upt_rec numeral_nat del: invoke_loop.simps)
  note many = invoke_loop_eq [OF ok(3,4) refl, where n = 301 and i = 0 and mode = join
      and ord = left_to_right and args = "[SeqObj 0]" and t = plain_task and st = ?st]
  have third: "map_sum id (\<lambda>(t, st). trace st ! 300)
     (task_invoke_mode_n_name left_to_right join 301 Narrow [] [SeqObj 0] plain_task ?st) =
     Inr (Schedule False (Narrow, [44]))"
    unfolding task_invoke_mode_n_name_def many
    by (simp add: invoker_def eval_defs ex_defs del: invoke_loop.simps)
  show ?thesis
    using first second third by simp
qed


text \<open>
  C10. When the count \<open>n\<close> of the replicating \<^verbatim>\<open>invoke<mode, n>\<close> is zero or negative, the
  loop body never runs: no child is instantiated, no sequence counter is touched, the
  state is the one before the call, and the call returns the parent task. Both
  overloads, with and without a name.
\<close>

theorem nonpositive_count_instantiates_nothing:
  assumes "n \<le> 0" and "is_callable f" and "return_type f = VoidT"
  shows "task_invoke_mode_n_name ord mode n f name args t st = Inr (t, st) \<and>
         task_invoke_mode_n ord mode n f args t st = Inr (t, st)"
proof -
  from assms(1) have "\<not> 0 < n" by simp
  then have "invoke_loop ord 0 n mode f args t st = Inr st"
    by (subst invoke_loop.simps) simp
  then show ?thesis
    using assms(2,3) by (simp add: task_invoke_mode_n_def task_invoke_mode_n_name_def invoker_def)
qed

theorem nonpositive_count_instantiates_nothing_witness:
  "(- 2 :: int) \<le> 0 \<and>
   task_invoke_mode_n left_to_right join (- 2) Add [Plain 7, SeqObj 0] plain_task
      \<lparr>seqs = (\<lambda>a. 5), trace = [Exec], clock = 3, shm = None\<rparr> =
   Inr (plain_task, \<lparr>seqs = (\<lambda>a. 5), trace = [Exec], clock = 3, shm = None\<rparr>)"
  using nonpositive_count_instantiates_nothing [of "- 2" Add left_to_right join "[]"
      "[Plain 7, SeqObj 0]" plain_task
      "\<lparr>seqs = (\<lambda>a. 5), trace = [Exec], clock = 3, shm = None\<rparr>"]
  by (simp add: ex_defs)

subsection \<open>The dispatch of the invoker\<close>

text \<open>
  C9. \<^verbatim>\<open>invoker::invoke(int mode, ...)\<close> binds the arguments, then: for a strictly
  positive mode it runs the functor at once, in the caller; otherwise it hands the
  functor to the scheduler, detached exactly when the mode is strictly negative, so mode
  zero is scheduled as joined. The mode is read as a signed 32-bit integer.
\<close>

theorem invoker_dispatch_by_mode:
  assumes "return_type f = VoidT"
  shows "invoker_invoke_mode ord mode f args st =
           Inr (st\<lparr>seqs := advance args 1 (seqs st),
                   trace := trace st @
                     [if 0 < sint mode then Run (f, bound_params ord f (seqs st) args)
                      else if sint mode < 0 then
                        Schedule True (f, bound_params ord f (seqs st) args)
                      else Schedule False (f, bound_params ord f (seqs st) args)]\<rparr>)"
  using assms by (simp add: dispatch_eq child_event_def word_sless_alt)

theorem invoker_dispatch_by_mode_witness:
  "invoker_invoke_mode left_to_right 0 Add [SeqObj 1, Plain 7]
      \<lparr>seqs = (\<lambda>a. 4), trace = [], clock = 0, shm = None\<rparr> =
   Inr \<lparr>seqs = advance [SeqObj 1, Plain (7::int)] 1 (\<lambda>a. 4),
        trace = [Schedule False (Add, [4, 7])], clock = 0, shm = None\<rparr> \<and>
   invoker_invoke_mode left_to_right 1 Add [SeqObj 1, Plain 7]
      \<lparr>seqs = (\<lambda>a. 4), trace = [], clock = 0, shm = None\<rparr> =
   Inr \<lparr>seqs = advance [SeqObj 1, Plain (7::int)] 1 (\<lambda>a. 4),
        trace = [Run (Add, [4, 7])], clock = 0, shm = None\<rparr> \<and>
   invoker_invoke_mode left_to_right (- 1) Add [SeqObj 1, Plain 7]
      \<lparr>seqs = (\<lambda>a. 4), trace = [], clock = 0, shm = None\<rparr> =
   Inr \<lparr>seqs = advance [SeqObj 1, Plain (7::int)] 1 (\<lambda>a. 4),
        trace = [Schedule True (Add, [4, 7])], clock = 0, shm = None\<rparr>"
  using invoker_dispatch_by_mode [of Add left_to_right 0 "[SeqObj 1, Plain 7]"
      "\<lparr>seqs = (\<lambda>a. 4), trace = [], clock = 0, shm = None\<rparr>"]
    invoker_dispatch_by_mode [of Add left_to_right 1 "[SeqObj 1, Plain 7]"
      "\<lparr>seqs = (\<lambda>a. 4), trace = [], clock = 0, shm = None\<rparr>"]
    invoker_dispatch_by_mode [of Add left_to_right "- 1" "[SeqObj 1, Plain 7]"
      "\<lparr>seqs = (\<lambda>a. 4), trace = [], clock = 0, shm = None\<rparr>"]
  by (simp add: eval_defs ex_defs upt_rec numeral_nat)

subsection \<open>The plain invoke and the fluent interface\<close>



subsection \<open>The top-level invocation\<close>

text \<open>
  C3. With an empty bitstream the public \<^verbatim>\<open>invoke\<close> applies the task function to the
  arguments as they are, once, and returns the difference of the two readings of the
  steady clock around that call: the nanoseconds the call took, which is not negative.
  The trace grows by this one call and by nothing else (no device runtime call, no
  allocation, no fork), whatever \<^verbatim>\<open>run_in_new_process\<close> is.
\<close>

theorem software_fallback:
  assumes "return_type f = VoidT"
  shows "invoker_invoke ev run_in_new_process f [] args st =
           Inr (Returned (int (clock (call ev f args st)) - int (clock st)), call ev f args st) \<and>
         call ev f args st = st\<lparr>trace := trace st @ [Call f args], clock := clock st + call_ns ev\<rparr> \<and>
         int (clock (call ev f args st)) - int (clock st) = int (call_ns ev) \<and>
         0 \<le> int (clock (call ev f args st)) - int (clock st)"
  using assms by (simp add: invoker_invoke_def invoker_def call_def emit_def)

theorem software_fallback_witness:
  "invoker_invoke some_env True Add [] [Plain 7, Plain 8]
      \<lparr>seqs = (\<lambda>a. 0), trace = [], clock = 100, shm = None\<rparr> =
   Inr (Returned 1500,
        \<lparr>seqs = (\<lambda>a. 0), trace = [Call Add [Plain 7, Plain 8]], clock = 1600, shm = None\<rparr>)"
  using software_fallback [of Add some_env True "[Plain 7, Plain 8]"
      "\<lparr>seqs = (\<lambda>a. 0), trace = [], clock = 100, shm = None\<rparr>"]
  by (simp add: ex_defs)

lemma invoker_invoke_fpga_eq:
  "invoker_invoke_fpga ev f bitstream args st =
     (compute_time_ns ev,
      st\<lparr>seqs := advance args 1 (seqs st),
         trace := trace st @ [Instance bitstream] @
           map (\<lambda>(i, p). SetArg i p) (enumerate 0 (device_params f 0 (seqs st) args)) @
           [WriteToDevice, Exec, ReadFromDevice, Finish, ComputeTimeNanoSeconds]\<rparr>)"
  by (simp add: invoker_invoke_fpga_def set_fpga_args_def set_args_from_eq emit_def)

text \<open>
  C6. With a non-empty bitstream and no new process, the public \<^verbatim>\<open>invoke\<close> calls the device
  runtime in this order and no other: the instance is opened from the bitstream, the
  kernel arguments are set at the indices 0, 1, 2, ... in parameter order, then
  \<^verbatim>\<open>WriteToDevice\<close>, \<^verbatim>\<open>Exec\<close>, \<^verbatim>\<open>ReadFromDevice\<close>, \<^verbatim>\<open>Finish\<close>, and last the query of the
  compute time, whose value is returned. In a new process the child makes the same calls
  in the same order, stores the time in the shared cell and exits with
  \<^verbatim>\<open>EXIT_SUCCESS\<close>.
\<close>

theorem device_calls_in_order:
  assumes "bitstream \<noteq> []" and "return_type f = VoidT"
  shows "invoker_invoke ev False f bitstream args st =
           Inr (Returned (compute_time_ns ev),
                st\<lparr>seqs := advance args 1 (seqs st),
                   trace := trace st @ [Instance bitstream] @
                     map (\<lambda>(i, p). SetArg i p) (enumerate 0 (device_params f 0 (seqs st) args)) @
                     [WriteToDevice, Exec, ReadFromDevice, Finish, ComputeTimeNanoSeconds]\<rparr>) \<and>
         child_branch ev f bitstream args st =
           (EXIT_SUCCESS,
            st\<lparr>seqs := advance args 1 (seqs st),
               trace := trace st @ [Instance bitstream] @
                 map (\<lambda>(i, p). SetArg i p) (enumerate 0 (device_params f 0 (seqs st) args)) @
                 [WriteToDevice, Exec, ReadFromDevice, Finish, ComputeTimeNanoSeconds],
               shm := Some (compute_time_ns ev)\<rparr>)"
  using assms
  by (simp add: invoker_invoke_def invoker_def invoker_invoke_fpga_eq child_branch_def)

theorem device_calls_in_order_witness:
  "invoker_invoke some_env False Add ''vadd.xo'' [Plain 7, SeqObj 0, Plain 8]
      \<lparr>seqs = (\<lambda>a. 0), trace = [], clock = 100, shm = None\<rparr> =
   Inr (Returned 900,
        \<lparr>seqs = advance [Plain (7::int), SeqObj 0, Plain 8] 1 (\<lambda>a. 0),
         trace = [Instance ''vadd.xo'', SetArg 0 7, SetArg 1 0, SetArg 2 8, WriteToDevice, Exec,
                  ReadFromDevice, Finish, ComputeTimeNanoSeconds],
         clock = 100, shm = None\<rparr>)"
  using device_calls_in_order [of "''vadd.xo''" Add some_env "[Plain 7, SeqObj 0, Plain 8]"
      "\<lparr>seqs = (\<lambda>a. 0), trace = [], clock = 100, shm = None\<rparr>", THEN conjunct1]
  by (simp add: ex_defs)

lemma wait_child_eq:
  "wait_child ev f bitstream args st =
     (case child_dies ev of
        None \<Rightarrow> (Exited EXIT_SUCCESS, Some (compute_time_ns ev))
      | Some s \<Rightarrow> (s, shm st))"
  by (simp add: wait_child_def child_branch_def invoker_invoke_fpga_eq split: option.splits)

text \<open>
  C4. With a non-empty bitstream and \<^verbatim>\<open>run_in_new_process\<close>, seen from the parent (the
  process in which \<^verbatim>\<open>fork\<close> does not return 0): the cell of 8 bytes is allocated before
  the fork. The parent returns a time only if the fork succeeded, \<^verbatim>\<open>wait\<close> returned the
  child and the child's status is a normal exit with \<^verbatim>\<open>EXIT_SUCCESS\<close>; the time is the
  content of the shared cell, which is the device's compute time when the child ran to
  its own \<^verbatim>\<open>exit\<close>, and the cell is released after it was read. With any other status,
  a signal or a nonzero exit code, the call is fatal and returns no time at all. The
  parent's sequence counters are not touched.
\<close>

theorem isolated_invoke:
  assumes "bitstream \<noteq> []" and "return_type f = VoidT" and "fork_result ev \<noteq> 0"
  shows "invoker_invoke ev True f bitstream args st =
     Inr (if fork_result ev = - 1 then
            (Fatal, st\<lparr>trace := trace st @ [Allocate 8, Fork], shm := Some (fresh_cell ev)\<rparr>)
          else
            (case child_dies ev of
               None \<Rightarrow>
                 if wait_result ev = fork_result ev then
                   (Returned (compute_time_ns ev),
                    st\<lparr>trace := trace st @ [Allocate 8, Fork, Wait, Deallocate 8], shm := None\<rparr>)
                 else
                   (Fatal, st\<lparr>trace := trace st @ [Allocate 8, Fork, Wait],
                              shm := Some (compute_time_ns ev)\<rparr>)
             | Some s \<Rightarrow>
                 if wait_result ev = fork_result ev \<and> s = Exited 0 then
                   (Returned (fresh_cell ev),
                    st\<lparr>trace := trace st @ [Allocate 8, Fork, Wait, Deallocate 8], shm := None\<rparr>)
                 else
                   (Fatal, st\<lparr>trace := trace st @ [Allocate 8, Fork, Wait],
                              shm := Some (fresh_cell ev)\<rparr>)))"
proof (cases "child_dies ev")
  case None
  then show ?thesis
    using assms
    by (simp add: invoker_invoke_def invoker_def wait_child_eq allocate_def deallocate_def
        emit_def sizeof_int64_def WIFEXITED_def WEXITSTATUS_def EXIT_SUCCESS_def Let_def)
next
  case (Some s)
  then show ?thesis
    using assms
    by (cases s)
       (simp_all add: invoker_invoke_def invoker_def wait_child_eq allocate_def deallocate_def
        emit_def sizeof_int64_def WIFEXITED_def WEXITSTATUS_def EXIT_SUCCESS_def Let_def)
qed

theorem isolated_invoke_witness:
  "invoker_invoke some_env True Add ''vadd.xo'' [Plain 7]
      \<lparr>seqs = (\<lambda>a. 0), trace = [], clock = 100, shm = None\<rparr> =
   Inr (Returned 900,
        \<lparr>seqs = (\<lambda>a. 0), trace = [Allocate 8, Fork, Wait, Deallocate 8],
         clock = 100, shm = None\<rparr>) \<and>
   invoker_invoke (some_env\<lparr>child_dies := Some (Exited 1)\<rparr>) True Add ''vadd.xo'' [Plain 7]
      \<lparr>seqs = (\<lambda>a. 0), trace = [], clock = 100, shm = None\<rparr> =
   Inr (Fatal,
        \<lparr>seqs = (\<lambda>a. 0), trace = [Allocate 8, Fork, Wait], clock = 100, shm = Some 0\<rparr>) \<and>
   invoker_invoke (some_env\<lparr>child_dies := Some (Signaled 6)\<rparr>) True Add ''vadd.xo'' [Plain 7]
      \<lparr>seqs = (\<lambda>a. 0), trace = [], clock = 100, shm = None\<rparr> =
   Inr (Fatal,
        \<lparr>seqs = (\<lambda>a. 0), trace = [Allocate 8, Fork, Wait], clock = 100, shm = Some 0\<rparr>)"
  using isolated_invoke [of "''vadd.xo''" Add some_env "[Plain 7]"
      "\<lparr>seqs = (\<lambda>a. 0), trace = [], clock = 100, shm = None\<rparr>"]
    isolated_invoke [of "''vadd.xo''" Add "some_env\<lparr>child_dies := Some (Exited 1)\<rparr>" "[Plain 7]"
      "\<lparr>seqs = (\<lambda>a. 0), trace = [], clock = 100, shm = None\<rparr>"]
    isolated_invoke [of "''vadd.xo''" Add "some_env\<lparr>child_dies := Some (Signaled 6)\<rparr>" "[Plain 7]"
      "\<lparr>seqs = (\<lambda>a. 0), trace = [], clock = 100, shm = None\<rparr>"]
  by (simp add: ex_defs)

subsection \<open>Static rejection\<close>

text \<open>
  C5. The invoker is defined exactly for the task functions whose return type is void.
  For any other return type every entry point (the two public members of the invoker
  and the six \<^verbatim>\<open>invoke\<close> overloads of the task, the replicating ones for every count) is
  rejected by a static assertion: the result is the assertion that failed and there is
  no state after the call, so nothing was bound, run, scheduled or sent to the device.
\<close>

theorem non_void_task_rejected:
  "(invoker f r = Inr r \<longleftrightarrow> return_type f = VoidT) \<and>
   (return_type f \<noteq> VoidT \<longrightarrow>
      invoker f r = Inl TaskFunctionMustReturnVoid \<and>
      invoker_invoke_mode ord mode f args st = Inl TaskFunctionMustReturnVoid \<and>
      invoker_invoke ev run_in_new_process f bitstream args st = Inl TaskFunctionMustReturnVoid \<and>
      task_invoke ord f args t st =
        Inl (if is_callable f then TaskFunctionMustReturnVoid else FirstArgumentMustBeCallable) \<and>
      task_invoke_mode ord mode f args t st =
        Inl (if is_callable f then TaskFunctionMustReturnVoid else FirstArgumentMustBeCallable) \<and>
      task_invoke_name ord f name args t st =
        Inl (if is_callable f then TaskFunctionMustReturnVoid else FirstArgumentMustBeCallable) \<and>
      task_invoke_mode_name ord mode f name args t st =
        Inl (if is_callable f then TaskFunctionMustReturnVoid else FirstArgumentMustBeCallable) \<and>
      task_invoke_mode_n ord mode n f args t st =
        Inl (if is_callable f then TaskFunctionMustReturnVoid else FirstArgumentMustBeCallable) \<and>
      task_invoke_mode_n_name ord mode n f name args t st =
        Inl (if is_callable f then TaskFunctionMustReturnVoid else FirstArgumentMustBeCallable))"
  by (simp add: invoker_def invoker_invoke_mode_def invoker_invoke_def task_invoke_def
      task_invoke_mode_def task_invoke_name_def task_invoke_mode_name_def task_invoke_mode_n_def
      task_invoke_mode_n_name_def)

theorem non_void_task_rejected_witness:
  "return_type Sum \<noteq> VoidT \<and>
   task_invoke left_to_right Sum [Plain 7] plain_task
      \<lparr>seqs = (\<lambda>a. 0), trace = [], clock = 0, shm = None\<rparr> = Inl TaskFunctionMustReturnVoid \<and>
   task_invoke_mode_n left_to_right join 0 Sum [Plain 7] plain_task
      \<lparr>seqs = (\<lambda>a. 0), trace = [], clock = 0, shm = None\<rparr> = Inl TaskFunctionMustReturnVoid"
  using non_void_task_rejected [of Sum "()" left_to_right join "[Plain 7]"
      "\<lparr>seqs = (\<lambda>a. 0), trace = [], clock = 0, shm = None\<rparr>"
      some_env False "[]" plain_task "[]" 0]
  by (simp add: ex_defs)


subsection \<open>The sequence accessor\<close>




end
